theory Spec2Isabelle
  imports Complex_Main
begin

section \<open>The store: sublevels with a time to live per entry\<close>

text \<open>
  The persistance of \<^verbatim>\<open>lib/persistance/levelup.js\<close> keeps four sublevels of one
  levelup database wrapped by level-ttl. A sublevel is modelled as an association list
  from keys to a value and the time to live given with the put (\<open>None\<close> when the put
  passes no \<^verbatim>\<open>ttl\<close> option). The list order is the order in which a read stream emits
  the entries. Expiry sweeps are not modelled: the model records which time to live an
  entry was stored with.
\<close>

type_synonym 'v sublevel = "(string \<times> ('v \<times> nat option)) list"

text \<open>
  An object used as a dictionary keeps its keys in insertion order: assigning to a key
  that is present replaces the value in place, assigning to a new key appends it.
\<close>

fun assign :: "'k \<Rightarrow> 'v \<Rightarrow> ('k \<times> 'v) list \<Rightarrow> ('k \<times> 'v) list" where
  "assign k v [] = [(k, v)]"
| "assign k v ((k', e) # xs) =
     (if k' = k then (k, v) # xs else (k', e) # assign k v xs)"

definition remove_key :: "'k \<Rightarrow> ('k \<times> 'v) list \<Rightarrow> ('k \<times> 'v) list" where
  "remove_key k xs = filter (\<lambda>e. fst e \<noteq> k) xs"

definition get :: "'v sublevel \<Rightarrow> string \<Rightarrow> ('v \<times> nat option) option" where
  "get db k = map_of db k"

definition put :: "string \<Rightarrow> 'v \<Rightarrow> nat option \<Rightarrow> 'v sublevel \<Rightarrow> 'v sublevel" where
  "put k v t db = assign k (v, t) db"

definition del :: "string \<Rightarrow> 'v sublevel \<Rightarrow> 'v sublevel" where
  "del k db = remove_key k db"

section \<open>Packets, sessions and options\<close>

record packet =
  topic :: string
  payload :: string
  qos :: nat
  messageId :: "nat option"
  retain :: bool

text \<open>
  What the persistance reads of a client object: \<^verbatim>\<open>client.id\<close>, \<^verbatim>\<open>client.clean\<close> and,
  for each key of \<^verbatim>\<open>client.subscriptions\<close>, its \<^verbatim>\<open>qos\<close>.
\<close>

record session =
  s_id :: string
  s_clean :: bool
  s_subscriptions :: "(string \<times> nat) list"

text \<open>
  The \<^verbatim>\<open>ttl\<close> options as the caller passes them (a field may be missing), and as the
  constructor leaves them after \<^verbatim>\<open>x = x || default\<close>, where \<open>0\<close> is falsy too.
\<close>

record ttl_given =
  g_subscriptions :: "nat option"
  g_packets :: "nat option"
  g_checkFrequency :: "nat option"

record ttl_options =
  ttl_subscriptions :: nat
  ttl_packets :: nat
  ttl_checkFrequency :: nat

definition or_default :: "nat option \<Rightarrow> nat \<Rightarrow> nat" where
  "or_default x d = (case x of None \<Rightarrow> d | Some n \<Rightarrow> (if n = 0 then d else n))"

definition ttl_defaults :: "ttl_given \<Rightarrow> ttl_options" where
  "ttl_defaults g =
     \<lparr> ttl_subscriptions = or_default (g_subscriptions g) (60 * 60 * 1000),
       ttl_packets = or_default (g_packets g) (60 * 60 * 1000),
       ttl_checkFrequency = or_default (g_checkFrequency g) (60 * 1000) \<rparr>"

section \<open>The topic matcher\<close>

fun splitOn :: "char \<Rightarrow> string \<Rightarrow> string list" where
  "splitOn c [] = [[]]"
| "splitOn c (x # xs) =
     (if x = c then [] # splitOn c xs
      else (case splitOn c xs of [] \<Rightarrow> [[x]] | w # ws \<Rightarrow> (x # w) # ws))"

text \<open>
  Modelled from the spec: the wildcard matcher (the qlobber package, which is not part of
  the source). A filter is split on \<open>/\<close>; \<open>+\<close> matches any single non-empty level, a final
  \<open>#\<close> matches the remaining levels including none, every other level matches itself.
\<close>

fun match_levels :: "string list \<Rightarrow> string list \<Rightarrow> bool" where
  "match_levels [] ts = (ts = [])"
| "match_levels (f # fs) ts =
     (if f = ''#'' \<and> fs = [] then True
      else (case ts of
              [] \<Rightarrow> False
            | t # ts' \<Rightarrow>
                (if f = ''+'' then t \<noteq> [] \<and> match_levels fs ts'
                 else f = t \<and> match_levels fs ts')))"

definition topic_matches :: "string \<Rightarrow> string \<Rightarrow> bool" where
  "topic_matches f t = match_levels (splitOn CHR ''/'' f) (splitOn CHR ''/'' t)"

text \<open>
  Modelled from the spec: the matcher's operations, with the arguments in the places
  where the source passes them. It holds pairs of a filter and a token. \<open>add\<close> takes the
  filter and the token, and adding a pair already held is a no-op. \<open>remove\<close> takes the
  filter first, as \<open>add\<close> does, and the token second: it removes that pair, and with the
  token left out it removes every pair held under the filter. \<open>match\<close> returns every
  token whose filter matches the topic, each once.
\<close>

type_synonym qlobber = "(string \<times> string) list"

definition qlobber_add :: "string \<Rightarrow> string \<Rightarrow> qlobber \<Rightarrow> qlobber" where
  "qlobber_add f tok q = (if (f, tok) \<in> set q then q else q @ [(f, tok)])"


definition qlobber_match :: "qlobber \<Rightarrow> string \<Rightarrow> string list" where
  "qlobber_match q t = remdups (map snd (filter (\<lambda>e. topic_matches (fst e) t) q))"

section \<open>The persistance\<close>

record sub_row =
  r_client :: string
  r_topic :: string
  r_qos :: nat

record persistance =
  options :: ttl_options
  retained :: "packet sublevel"
  clientSubscriptions :: "(string \<times> nat) list sublevel"
  subscriptions :: "sub_row sublevel"
  offlinePackets :: "packet sublevel"
  subLobber :: qlobber

text \<open>The constructor on an empty database: no row to load into the matcher.\<close>

definition LevelUpPersistance :: "ttl_given \<Rightarrow> persistance" where
  "LevelUpPersistance g =
     \<lparr> options = ttl_defaults g, retained = [], clientSubscriptions = [],
       subscriptions = [], offlinePackets = [], subLobber = [] \<rparr>"

text \<open>\<^verbatim>\<open>util.format("%s:%s", a, b)\<close>\<close>

definition format2 :: "string \<Rightarrow> string \<Rightarrow> string" where
  "format2 a b = a @ '':'' @ b"

text \<open>\<^verbatim>\<open>storeRetained\<close>: one put under the topic, with no \<^verbatim>\<open>ttl\<close> option.\<close>

definition storeRetained :: "packet \<Rightarrow> persistance \<Rightarrow> persistance" where
  "storeRetained p st = st\<lparr>retained := put (topic p) p None (retained st)\<rparr>"

text \<open>
  \<^verbatim>\<open>lookupRetained\<close>: a fresh matcher holding the pattern, and a scan of the whole
  sublevel that keeps the values whose key the pattern matches.
\<close>

definition lookupRetained :: "string \<Rightarrow> persistance \<Rightarrow> packet list" where
  "lookupRetained pattern st =
     (let q = qlobber_add pattern ''true'' []
      in map (\<lambda>e. fst (snd e))
           (filter (\<lambda>e. length (qlobber_match q (fst e)) > 0) (retained st)))"

text \<open>\<^verbatim>\<open>storeSubscriptions\<close>\<close>

definition storeSubscriptions :: "session \<Rightarrow> persistance \<Rightarrow> persistance" where
  "storeSubscriptions client st =
     (let t = Some (ttl_subscriptions (options st));
          subs = filter (\<lambda>e. snd e > 0) (s_subscriptions client)
      in if \<not> s_clean client then
           fold (\<lambda>e s.
                   let levelKey = format2 (fst e) (s_id client)
                   in s\<lparr>subLobber := qlobber_add (fst e) levelKey (subLobber s),
                        subscriptions :=
                          put levelKey
                            \<lparr>r_client = s_id client, r_topic = fst e, r_qos = snd e\<rparr> t
                            (subscriptions s)\<rparr>)
             subs
             (st\<lparr>clientSubscriptions := put (s_id client) subs t (clientSubscriptions st)\<rparr>)
         else st)"

text \<open>
  \<^verbatim>\<open>streamOfflinePackets\<close>: the range stream emits the entries whose key starts with
  \<^verbatim>\<open>client.id + ":"\<close>; each is deleted, and its value is handed to \<^verbatim>\<open>cb\<close> only when the
  client is not clean. The first component is the list of values handed to \<^verbatim>\<open>cb\<close>.
\<close>

definition in_range :: "string \<Rightarrow> string \<Rightarrow> bool" where
  "in_range cid k = (take (length cid + 1) k = cid @ '':'')"

definition streamOfflinePackets :: "session \<Rightarrow> persistance \<Rightarrow> packet list \<times> persistance" where
  "streamOfflinePackets client st =
     (let hits = filter (\<lambda>e. in_range (s_id client) (fst e)) (offlinePackets st)
      in (if \<not> s_clean client then map (\<lambda>e. fst (snd e)) hits else [],
          st\<lparr>offlinePackets := fold (\<lambda>e db. del (fst e) db) hits (offlinePackets st)\<rparr>))"


text \<open>
  \<^verbatim>\<open>_storePacket\<close>: the key is the client id, a colon and the clock read as an ISO
  string. The engine may refuse the write: \<open>refused\<close> tells for which keys, and the
  error goes to the callback.
\<close>

datatype err = NotFound | WriteError

definition storePacket ::
  "(string \<Rightarrow> bool) \<Rightarrow> string \<Rightarrow> string \<Rightarrow> packet \<Rightarrow> persistance \<Rightarrow> err + persistance" where
  "storePacket refused now client p st =
     (let key = format2 client now;
          t = Some (ttl_subscriptions (options st))
      in if refused key then Inl WriteError
         else Inr (st\<lparr>offlinePackets := put key p t (offlinePackets st)\<rparr>))"

text \<open>
  \<^verbatim>\<open>storeOfflinePacket\<close>: \<^verbatim>\<open>async.each\<close> starts the iterator on every matched key; the
  iterators complete in the order of the keys, the \<open>i\<close>-th reading the clock as
  \<open>clock i\<close>. The final callback is called once: with the first error an iterator
  reports, or with none after all have completed. The first component is that argument.
\<close>

fun each_sub ::
  "(string \<Rightarrow> bool) \<Rightarrow> (nat \<Rightarrow> string) \<Rightarrow> packet \<Rightarrow> string list \<Rightarrow> nat \<Rightarrow> persistance
     \<Rightarrow> err option \<times> persistance" where
  "each_sub refused clock p [] i st = (None, st)"
| "each_sub refused clock p (key # keys) i st =
     (case get (subscriptions st) key of
        None \<Rightarrow>
          (let (e, st') = each_sub refused clock p keys (i + 1) st
           in (Some NotFound, st'))
      | Some (sub, t) \<Rightarrow>
          (case storePacket refused (clock i) (r_client sub) p st of
             Inl er \<Rightarrow>
               (let (e, st') = each_sub refused clock p keys (i + 1) st
                in (Some er, st'))
           | Inr st1 \<Rightarrow> each_sub refused clock p keys (i + 1) st1))"

definition storeOfflinePacket ::
  "(string \<Rightarrow> bool) \<Rightarrow> (nat \<Rightarrow> string) \<Rightarrow> packet \<Rightarrow> persistance \<Rightarrow> err option \<times> persistance" where
  "storeOfflinePacket refused clock p st =
     each_sub refused clock p (qlobber_match (subLobber st) (topic p)) 0 st"

section \<open>The server: client objects, timers and the bus\<close>

text \<open>
  \<^verbatim>\<open>lib/server.js\<close>. Client objects live in a heap, addressed by a connection handle:
  the registry \<^verbatim>\<open>clients\<close> maps a client id to a handle, so two client objects may carry
  the same id. A packet built by \<^verbatim>\<open>forward\<close> always has a message id.
\<close>

record pub =
  p_topic :: string
  p_payload :: string
  p_qos :: nat
  p_messageId :: nat

text \<open>
  The closure that \<^verbatim>\<open>subscribe\<close> registers on the bus: a fresh function object each
  time (\<open>h_ref\<close> is its identity), closing over the client, \<^verbatim>\<open>s.topic\<close> and \<^verbatim>\<open>s.qos\<close>.
\<close>

record handler =
  h_ref :: nat
  h_client :: nat
  h_topic :: string
  h_qos :: nat

record sub =
  sub_qos :: nat
  sub_handler :: handler

datatype outp = Publish pub | Connack nat | Suback nat "nat list"

datatype event = ClientConnected nat | ClientDisconnected nat | ServerError string

text \<open>A pending \<^verbatim>\<open>setTimeout\<close>: the delay in ms and what its callback closes over.\<close>

datatype timer = Resend nat nat pub nat | Keepalive nat nat

record client =
  c_id :: "string option"
  c_keepalive :: nat
  c_will :: "packet option"
  c_timer :: "nat option"
  c_subscriptions :: "(string \<times> sub) list"
  c_nextId :: nat
  c_inflight :: "(nat \<times> nat) list"
  c_closed :: bool
  c_ended :: bool
  c_end_listeners :: nat
  c_listening :: bool
  c_onclose :: bool
  c_out :: "outp list"
  c_errors :: "string list"

text \<open>
  A request of a SUBSCRIBE packet. One \<^verbatim>\<open>async.parallel\<close> of the subscribe listener
  (a batch): the client and what its final callback closes over, the number of tasks,
  how many have completed, and whether a task has reported an error (after which the
  final callback is not called again). A call of the bus's \<^verbatim>\<open>subscribe\<close> whose callback
  has not run yet: the batch of its task, the request and the handler it registered.
\<close>

record subreq =
  q_topic :: string
  q_qos :: nat

record batch =
  b_client :: nat
  b_messageId :: nat
  b_granted :: "nat list"
  b_total :: nat
  b_completed :: nat
  b_failed :: bool

record pending_subscribe =
  ps_batch :: nat
  ps_req :: subreq
  ps_handler :: handler

record server =
  baseRetryTimeout :: nat
  clients :: "string \<rightharpoonup> nat"
  heap :: "nat \<rightharpoonup> client"
  bus :: "(string \<times> handler) list"
  timers :: "nat \<rightharpoonup> timer"
  next_ref :: nat
  emitted :: "event list"
  uncaught :: "string list"
  batches :: "nat \<rightharpoonup> batch"
  next_batch :: nat
  bus_pending :: "pending_subscribe list"

text \<open>
  \<^verbatim>\<open>client.nextId = Math.floor(65535 * Math.random())\<close>, with \<open>r\<close> the number that
  \<^verbatim>\<open>Math.random()\<close> returns. The product is taken exactly: the rounding of the
  floating-point multiplication is not modelled.
\<close>

definition initial_nextId :: "real \<Rightarrow> nat" where
  "initial_nextId r = nat \<lfloor>65535 * r\<rfloor>"

text \<open>
  \<^verbatim>\<open>serve\<close>: the fields it sets on a new client object, and the listeners it attaches
  (\<open>c_listening\<close>, and \<open>c_onclose\<close> for \<^verbatim>\<open>client._onclose\<close>).
\<close>

definition serve :: "real \<Rightarrow> nat \<Rightarrow> server \<Rightarrow> server" where
  "serve r c s =
     s\<lparr>heap := (heap s)(c \<mapsto>
        \<lparr> c_id = None, c_keepalive = 0, c_will = None, c_timer = None,
          c_subscriptions = [], c_nextId = initial_nextId r, c_inflight = [],
          c_closed = False, c_ended = False, c_end_listeners = 0,
          c_listening = True, c_onclose = True, c_out = [], c_errors = [] \<rparr>)\<rparr>"

text \<open>
  \<^verbatim>\<open>client.emit("error", err)\<close>: the listener of \<^verbatim>\<open>serve\<close> logs and ends the stream. An
  emitter without a listener for \<^verbatim>\<open>error\<close> throws instead.
\<close>

definition emit_error :: "nat \<Rightarrow> string \<Rightarrow> server \<Rightarrow> server" where
  "emit_error c msg s =
     (case heap s c of
        None \<Rightarrow> s
      | Some cl \<Rightarrow>
          if c_listening cl then
            s\<lparr>heap := (heap s)(c \<mapsto> cl\<lparr>c_errors := c_errors cl @ [msg], c_ended := True\<rparr>)\<rparr>
          else s\<lparr>uncaught := uncaught s @ [msg]\<rparr>)"

text \<open>\<^verbatim>\<open>actualSend\<close>\<close>

definition actualSend :: "nat \<Rightarrow> pub \<Rightarrow> nat \<Rightarrow> server \<Rightarrow> server" where
  "actualSend c p retry s =
     (case heap s c of
        None \<Rightarrow> s
      | Some cl \<Rightarrow>
          if retry = 10 then emit_error c ''client not responding to acks'' s
          else
            (let cl1 = cl\<lparr>c_out := c_out cl @ [Publish p]\<rparr>
             in if p_qos p = 1 then
                  s\<lparr>heap := (heap s)(c \<mapsto>
                       cl1\<lparr>c_inflight := assign (p_messageId p) (next_ref s) (c_inflight cl1)\<rparr>),
                    timers := (timers s)(next_ref s \<mapsto>
                       Resend (baseRetryTimeout s * 2 ^ retry) c p retry),
                    next_ref := next_ref s + 1\<rparr>
                else s\<lparr>heap := (heap s)(c \<mapsto> cl1)\<rparr>))"

text \<open>\<^verbatim>\<open>forward\<close>; \<open>opt_qos\<close> is \<^verbatim>\<open>options && options.qos\<close>.\<close>

definition forward ::
  "nat \<Rightarrow> string \<Rightarrow> string \<Rightarrow> nat option \<Rightarrow> string \<Rightarrow> nat \<Rightarrow> server \<Rightarrow> server" where
  "forward c tp pl opt_qos sub_topic initial_qos s =
     (case heap s c of
        None \<Rightarrow> s
      | Some cl \<Rightarrow>
          (let pub_qos = (case opt_qos of None \<Rightarrow> 0 | Some q \<Rightarrow> q);
               sub_q = (case map_of (c_subscriptions cl) sub_topic of
                          None \<Rightarrow> initial_qos
                        | Some sb \<Rightarrow> sub_qos sb);
               packet = \<lparr>p_topic = tp, p_payload = pl, p_qos = min pub_qos sub_q,
                         p_messageId = c_nextId cl\<rparr>
           in actualSend c packet 0
                (s\<lparr>heap := (heap s)(c \<mapsto> cl\<lparr>c_nextId := c_nextId cl + 1\<rparr>)\<rparr>)))"

text \<open>\<^verbatim>\<open>clearTimeout\<close> of a handle that may be undefined.\<close>

definition clearTimeout :: "nat option \<Rightarrow> server \<Rightarrow> server" where
  "clearTimeout h s = (case h of None \<Rightarrow> s | Some t \<Rightarrow> s\<lparr>timers := (timers s)(t := None)\<rparr>)"

text \<open>The cleanup of \<^verbatim>\<open>closeConn\<close>.\<close>

definition cleanup :: "nat \<Rightarrow> server \<Rightarrow> server" where
  "cleanup c s =
     (case heap s c of
        None \<Rightarrow> s
      | Some cl \<Rightarrow>
          (let s1 = fold (\<lambda>e. clearTimeout (Some (snd e))) (c_inflight cl) s
           in s1\<lparr>heap := (heap s1)(c \<mapsto>
                   cl\<lparr>c_inflight := [], c_listening := False, c_onclose := False\<rparr>),
                 emitted := emitted s1 @ [ClientDisconnected c]\<rparr>))"

text \<open>
  \<^verbatim>\<open>closeConn\<close> (its callback is left out). An id that is undefined or empty is falsy.
  When the client is not closed yet, the cleanup waits for the stream to end.
\<close>

definition closeConn :: "nat \<Rightarrow> server \<Rightarrow> server" where
  "closeConn c s =
     (case heap s c of
        None \<Rightarrow> s
      | Some cl \<Rightarrow>
          (let s1 = (case c_id cl of
                       None \<Rightarrow> s
                     | Some i \<Rightarrow>
                         if i = [] then s
                         else (clearTimeout (c_timer cl) s)\<lparr>clients := (clients s)(i := None)\<rparr>);
               s2 = s1\<lparr>heap := (heap s1)(c \<mapsto> cl\<lparr>c_onclose := False\<rparr>)\<rparr>
           in if c_closed cl then cleanup c s2
              else s2\<lparr>heap := (heap s2)(c \<mapsto>
                        cl\<lparr>c_onclose := False, c_end_listeners := c_end_listeners cl + 1,
                           c_ended := True\<rparr>)\<rparr>))"

text \<open>The stream's \<^verbatim>\<open>end\<close> event: every cleanup that \<^verbatim>\<open>closeConn\<close> attached runs.\<close>

definition stream_end :: "nat \<Rightarrow> server \<Rightarrow> server" where
  "stream_end c s =
     (case heap s c of
        None \<Rightarrow> s
      | Some cl \<Rightarrow> ((cleanup c) ^^ (c_end_listeners cl)) s)"

text \<open>\<^verbatim>\<open>topic.replace("#", "*")\<close>: the first occurrence only.\<close>

fun replace_hash :: "string \<Rightarrow> string" where
  "replace_hash [] = []"
| "replace_hash (x # xs) = (if x = CHR ''#'' then CHR ''*'' # xs else x # replace_hash xs)"

text \<open>
  \<^verbatim>\<open>unsubscribeMapTo\<close>: the bus accepts the unsubscribe and its callback runs at once,
  without error. With no stored subscription the handler passed is \<^verbatim>\<open>forward\<close> itself,
  which was never registered.
\<close>

definition unsubscribeMapTo :: "nat \<Rightarrow> string \<Rightarrow> server \<Rightarrow> server" where
  "unsubscribeMapTo c tp s =
     (case heap s c of
        None \<Rightarrow> s
      | Some cl \<Rightarrow>
          s\<lparr>bus := (case map_of (c_subscriptions cl) tp of
                      None \<Rightarrow> bus s
                    | Some sb \<Rightarrow>
                        filter (\<lambda>e. e \<noteq> (replace_hash tp, sub_handler sb)) (bus s)),
            heap := (heap s)(c \<mapsto>
                      cl\<lparr>c_subscriptions := remove_key tp (c_subscriptions cl)\<rparr>)\<rparr>)"

definition unsubAndClose :: "nat \<Rightarrow> server \<Rightarrow> server" where
  "unsubAndClose c s =
     (case heap s c of
        None \<Rightarrow> s
      | Some cl \<Rightarrow>
          closeConn c
            (fold (unsubscribeMapTo c) (map fst (c_subscriptions cl))
               (s\<lparr>heap := (heap s)(c \<mapsto> cl\<lparr>c_onclose := False\<rparr>)\<rparr>)))"

text \<open>The timer of \<^verbatim>\<open>setUpTimer\<close> is set to \<^verbatim>\<open>keepalive * 1000 * 5 / 4\<close> ms.\<close>

definition setUpTimer :: "nat \<Rightarrow> server \<Rightarrow> server" where
  "setUpTimer c s =
     (case heap s c of
        None \<Rightarrow> s
      | Some cl \<Rightarrow>
          (let s1 = clearTimeout (c_timer cl) s
           in s1\<lparr>heap := (heap s1)(c \<mapsto> cl\<lparr>c_timer := Some (next_ref s1)\<rparr>),
                 timers := (timers s1)(next_ref s1 \<mapsto> Keepalive (c_keepalive cl * 1250) c),
                 next_ref := next_ref s1 + 1\<rparr>))"

text \<open>
  A pending timer fires: it leaves the table and its callback runs. The resend callback
  increments \<^verbatim>\<open>retry\<close> and calls \<^verbatim>\<open>actualSend\<close>.
\<close>

definition fire :: "nat \<Rightarrow> server \<Rightarrow> server" where
  "fire h s =
     (case timers s h of
        None \<Rightarrow> s
      | Some (Resend d c p retry) \<Rightarrow> actualSend c p (retry + 1) (s\<lparr>timers := (timers s)(h := None)\<rparr>)
      | Some (Keepalive d c) \<Rightarrow> closeConn c (s\<lparr>timers := (timers s)(h := None)\<rparr>))"

section \<open>The listeners of a client\<close>

record connect_packet =
  clientId :: string
  username :: "string option"
  password :: "string option"
  keepalive :: nat
  will :: "packet option"

text \<open>
  The three hooks call back with an error or a verdict; they are parameters of the
  listeners. The defaults accept everybody.
\<close>

type_synonym authenticate = "nat \<Rightarrow> string option \<Rightarrow> string option \<Rightarrow> string + bool"

definition default_authenticate :: authenticate where
  "default_authenticate c u p = Inr True"


text \<open>\<^verbatim>\<open>client.on("connect")\<close>\<close>

definition on_connect :: "authenticate \<Rightarrow> nat \<Rightarrow> connect_packet \<Rightarrow> server \<Rightarrow> server" where
  "on_connect auth c cp s =
     (case heap s c of
        None \<Rightarrow> s
      | Some cl0 \<Rightarrow>
          (let cl = cl0\<lparr>c_id := Some (clientId cp)\<rparr>
           in case auth c (username cp) (password cp) of
                Inl e \<Rightarrow>
                  s\<lparr>heap := (heap s)(c \<mapsto> cl\<lparr>c_ended := True\<rparr>),
                    emitted := emitted s @ [ServerError e]\<rparr>
              | Inr verdict \<Rightarrow>
                  if \<not> verdict then
                    s\<lparr>heap := (heap s)(c \<mapsto>
                         cl\<lparr>c_out := c_out cl @ [Connack 5], c_ended := True\<rparr>)\<rparr>
                  else
                    (let cl1 = cl\<lparr>c_keepalive := keepalive cp, c_will := will cp\<rparr>;
                         s1 = setUpTimer c
                                (s\<lparr>heap := (heap s)(c \<mapsto> cl1),
                                   clients := (clients s)(clientId cp \<mapsto> c)\<rparr>)
                     in case heap s1 c of
                          None \<Rightarrow> s1
                        | Some cl2 \<Rightarrow>
                            s1\<lparr>heap := (heap s1)(c \<mapsto> cl2\<lparr>c_out := c_out cl2 @ [Connack 0]\<rparr>),
                               emitted := emitted s1 @ [ClientConnected c]\<rparr>)))"

text \<open>\<^verbatim>\<open>client.on("puback")\<close>\<close>

definition on_puback :: "nat \<Rightarrow> nat \<Rightarrow> server \<Rightarrow> server" where
  "on_puback c mid s =
     (case heap s c of
        None \<Rightarrow> s
      | Some cl \<Rightarrow>
          (case map_of (c_inflight cl) mid of
             None \<Rightarrow> s
           | Some h \<Rightarrow>
               (clearTimeout (Some h) s)\<lparr>heap := (heap s)(c \<mapsto>
                  cl\<lparr>c_inflight := remove_key mid (c_inflight cl)\<rparr>)\<rparr>))"

text \<open>\<^verbatim>\<open>client.on("disconnect")\<close>\<close>

definition on_disconnect :: "nat \<Rightarrow> server \<Rightarrow> server" where
  "on_disconnect c s = unsubAndClose c s"










text \<open>
  The constructor of the server: \<^verbatim>\<open>baseRetryTimeout\<close> defaults to one second, and nothing
  is connected, registered or pending.
\<close>

definition Server :: "nat option \<Rightarrow> server" where
  "Server base =
     \<lparr> baseRetryTimeout = (case base of None \<Rightarrow> 1000 | Some b \<Rightarrow> (if b = 0 then 1000 else b)),
       clients = Map.empty, heap = Map.empty, bus = [], timers = Map.empty,
       next_ref = 0, emitted = [], uncaught = [], batches = Map.empty, next_batch = 0,
       bus_pending = [] \<rparr>"

section \<open>Runs and observations used in the statements\<close>

text \<open>
  The resend timer of a message expires: the timer whose handle is stored under
  \<^verbatim>\<open>client.inflight[messageId]\<close> fires. \<open>resend_run n\<close> lets it expire \<open>n\<close> times in a row,
  with no PUBACK in between.
\<close>

definition fire_inflight :: "nat \<Rightarrow> nat \<Rightarrow> server \<Rightarrow> server" where
  "fire_inflight c mid s =
     (case heap s c of
        None \<Rightarrow> s
      | Some cl \<Rightarrow>
          (case map_of (c_inflight cl) mid of
             None \<Rightarrow> s
           | Some h \<Rightarrow> fire h s))"

fun resend_run :: "nat \<Rightarrow> nat \<Rightarrow> nat \<Rightarrow> server \<Rightarrow> server" where
  "resend_run 0 c mid s = s"
| "resend_run (Suc n) c mid s = resend_run n c mid (fire_inflight c mid s)"

text \<open>
  \<open>armed c p k cl0 s\<close>: in \<open>s\<close> the packet \<open>p\<close> has been transmitted \<open>k + 1\<close> times to
  client \<open>c\<close> since the client was as \<open>cl0\<close>, and the handle under \<^verbatim>\<open>inflight\<close> is a
  pending timer of delay \<^verbatim>\<open>baseRetryTimeout * 2^k\<close> that will call
  \<^verbatim>\<open>actualSend(p, k + 1)\<close>; no error was emitted and the stream was not ended since.
\<close>

definition armed :: "nat \<Rightarrow> pub \<Rightarrow> nat \<Rightarrow> client \<Rightarrow> server \<Rightarrow> bool" where
  "armed c p k cl0 s =
     (case heap s c of
        None \<Rightarrow> False
      | Some cl \<Rightarrow>
          (case map_of (c_inflight cl) (p_messageId p) of
             None \<Rightarrow> False
           | Some h \<Rightarrow>
               timers s h = Some (Resend (baseRetryTimeout s * 2 ^ k) c p k) \<and>
               c_out cl = c_out cl0 @ replicate (k + 1) (Publish p) \<and>
               c_listening cl \<and> c_errors cl = c_errors cl0 \<and> c_ended cl = c_ended cl0))"

text \<open>
  \<open>exhausted c p cl0 s\<close>: the packet was transmitted ten times, the error was emitted and
  the stream ended; \<^verbatim>\<open>inflight\<close> still holds a handle for the message, of a timer that
  is no longer pending.
\<close>

definition exhausted :: "nat \<Rightarrow> pub \<Rightarrow> client \<Rightarrow> server \<Rightarrow> bool" where
  "exhausted c p cl0 s =
     (case heap s c of
        None \<Rightarrow> False
      | Some cl \<Rightarrow>
          (case map_of (c_inflight cl) (p_messageId p) of
             None \<Rightarrow> False
           | Some h \<Rightarrow>
               timers s h = None \<and>
               c_out cl = c_out cl0 @ replicate 10 (Publish p) \<and>
               c_errors cl = c_errors cl0 @ [''client not responding to acks''] \<and>
               c_ended cl))"

text \<open>The message ids of the packets published to a client, in order.\<close>

fun message_ids :: "outp list \<Rightarrow> nat list" where
  "message_ids [] = []"
| "message_ids (Publish p # xs) = p_messageId p # message_ids xs"
| "message_ids (x # xs) = message_ids xs"


text \<open>
  What one iterator of \<^verbatim>\<open>storeOfflinePacket\<close> comes to, for a matched key and a clock
  reading: the error it reports, or the key under which it stores the packet.
\<close>

definition iter_outcome :: "(string \<Rightarrow> bool) \<Rightarrow> persistance \<Rightarrow> string \<Rightarrow> string \<Rightarrow> err + string" where
  "iter_outcome refused st now key =
     (case get (subscriptions st) key of
        None \<Rightarrow> Inl NotFound
      | Some (sub, t) \<Rightarrow>
          if refused (format2 (r_client sub) now) then Inl WriteError
          else Inr (format2 (r_client sub) now))"

fun outcomes ::
  "(string \<Rightarrow> bool) \<Rightarrow> (nat \<Rightarrow> string) \<Rightarrow> persistance \<Rightarrow> string list \<Rightarrow> nat \<Rightarrow> (err + string) list" where
  "outcomes refused clock st [] i = []"
| "outcomes refused clock st (key # keys) i =
     iter_outcome refused st (clock i) key # outcomes refused clock st keys (i + 1)"

definition iterations ::
  "(string \<Rightarrow> bool) \<Rightarrow> (nat \<Rightarrow> string) \<Rightarrow> packet \<Rightarrow> persistance \<Rightarrow> (err + string) list" where
  "iterations refused clock p st =
     outcomes refused clock st (qlobber_match (subLobber st) (topic p)) 0"

fun first_error :: "(err + 'a) list \<Rightarrow> err option" where
  "first_error [] = None"
| "first_error (Inl e # xs) = Some e"
| "first_error (Inr k # xs) = first_error xs"

fun written :: "(err + 'a) list \<Rightarrow> 'a list" where
  "written [] = []"
| "written (Inl e # xs) = written xs"
| "written (Inr k # xs) = k # written xs"

section \<open>Concrete inputs\<close>

definition ttl0 :: ttl_given where
  "ttl0 = \<lparr>g_subscriptions = None, g_packets = None, g_checkFrequency = None\<rparr>"

definition ttl1 :: ttl_given where
  "ttl1 = \<lparr>g_subscriptions = Some 1000, g_packets = Some 2000, g_checkFrequency = None\<rparr>"

definition p21 :: packet where
  "p21 = \<lparr>topic = ''home/temp'', payload = ''21'', qos = 0, messageId = None, retain = True\<rparr>"

definition p_empty :: packet where
  "p_empty = \<lparr>topic = ''home/temp'', payload = [], qos = 0, messageId = None, retain = True\<rparr>"

definition px :: packet where
  "px = \<lparr>topic = ''a/b/c'', payload = ''x'', qos = 1, messageId = Some 7, retain = False\<rparr>"

definition sess2 :: session where
  "sess2 = \<lparr>s_id = ''c1'', s_clean = False, s_subscriptions = [(''a/+/c'', 1), (''a/#'', 1)]\<rparr>"

definition sessA :: session where
  "sessA = \<lparr>s_id = ''c1'', s_clean = False, s_subscriptions = [(''a/+/c'', 1)]\<rparr>"

definition sessB :: session where
  "sessB = \<lparr>s_id = ''c2'', s_clean = False, s_subscriptions = [(''a/#'', 1), (''q0'', 0)]\<rparr>"

definition st8 :: persistance where
  "st8 = storeSubscriptions sessB (storeSubscriptions sessA (LevelUpPersistance ttl0))"

definition refuse_c1 :: "string \<Rightarrow> bool" where
  "refuse_c1 k = (k = ''c1:T'')"

definition clock01 :: "nat \<Rightarrow> string" where
  "clock01 i = (if i = 0 then ''2013-06-01T10:00:00.000Z'' else ''2013-06-01T10:00:00.001Z'')"



definition cpA :: connect_packet where
  "cpA = \<lparr>clientId = ''a'', username = None, password = None, keepalive = 60, will = None\<rparr>"

definition two_served :: server where
  "two_served = serve (1 / 2) 2 (serve (1 / 2) 1 (Server None))"

definition near_top :: server where
  "near_top = serve (99999 / 100000) 1 (Server None)"

definition one_served :: server where
  "one_served = serve (1 / 2) 1 (Server None)"

definition sent_qos1 :: server where
  "sent_qos1 = forward 1 ''t'' ''x'' (Some 1) ''t'' 1 one_served"

definition pub1 :: pub where
  "pub1 = \<lparr>p_topic = ''t'', p_payload = ''x'', p_qos = 1, p_messageId = 32767\<rparr>"





section \<open>Facts about the store\<close>

lemma map_of_assign: "map_of (assign k v xs) k' = (if k' = k then Some v else map_of xs k')"
  by (induction xs) auto

lemma map_of_remove_key: "map_of (remove_key k xs) k' = (if k' = k then None else map_of xs k')"
  by (induction xs) (auto simp: remove_key_def)

lemma get_put: "get (put k v t db) k' = (if k' = k then Some (v, t) else get db k')"
  by (simp add: get_def put_def map_of_assign)

lemma get_del: "get (del k db) k' = (if k' = k then None else get db k')"
  by (simp add: get_def del_def map_of_remove_key)

lemma assign_mem: "(k, v) \<in> set (assign k v xs)"
  by (induction xs) auto

lemma get_fold_put:
  "get (fold (\<lambda>k. put k p t) ks db) k = (if k \<in> set ks then Some (p, t) else get db k)"
  by (induction ks arbitrary: db) (auto simp: get_put)

lemma get_fold_del:
  "get (fold (\<lambda>e db. del (fst e) db) hs db) k = (if k \<in> fst ` set hs then None else get db k)"
  by (induction hs arbitrary: db) (auto simp: get_del)

lemma format2_left: "format2 a c = format2 b c \<longleftrightarrow> a = b"
  by (simp add: format2_def)

lemma format2_right: "format2 c a = format2 c b \<longleftrightarrow> a = b"
  by (simp add: format2_def)

lemma in_range_format2: "in_range c (format2 c now)"
  by (simp add: in_range_def format2_def)

lemmas persist_defs = LevelUpPersistance_def ttl_defaults_def or_default_def storeRetained_def
  lookupRetained_def put_def get_def del_def remove_key_def qlobber_add_def qlobber_match_def
  topic_matches_def format2_def storeSubscriptions_def
  streamOfflinePackets_def in_range_def storePacket_def
  storeOfflinePacket_def Let_def

section \<open>Retained messages\<close>

lemma lookupRetained_mem:
  "(k, (v, t)) \<in> set (retained st) \<Longrightarrow> topic_matches f k \<Longrightarrow> v \<in> set (lookupRetained f st)"
  by (force simp: lookupRetained_def qlobber_add_def qlobber_match_def)

text \<open>
  C1, as the code has it: \<open>storeRetained\<close> puts the packet under its topic whatever the
  payload, also when the payload is empty, and leaves every other key alone; a later
  \<open>lookupRetained\<close> with a filter that matches the topic returns the packet. Nothing is
  ever deleted from the retained sublevel.
\<close>

theorem storeRetained_always_puts:
  "get (retained (storeRetained p st)) (topic p) = Some (p, None) \<and>
   (\<forall>k. k \<noteq> topic p \<longrightarrow> get (retained (storeRetained p st)) k = get (retained st) k) \<and>
   (topic_matches f (topic p) \<longrightarrow> p \<in> set (lookupRetained f (storeRetained p st)))"
proof -
  have "(topic p, (p, None)) \<in> set (retained (storeRetained p st))"
    by (simp add: storeRetained_def put_def assign_mem)
  then have "topic_matches f (topic p) \<Longrightarrow> p \<in> set (lookupRetained f (storeRetained p st))"
    by (rule lookupRetained_mem)
  then show ?thesis
    by (simp add: storeRetained_def get_put)
qed

text \<open>The theorem at a packet with an empty payload and the filter \<open>home/#\<close>.\<close>

theorem storeRetained_always_puts_witness:
  "topic_matches ''home/#'' (topic p_empty) \<and>
   p_empty \<in> set (lookupRetained ''home/#'' (storeRetained p_empty (LevelUpPersistance ttl0))) \<and>
   ''other'' \<noteq> topic p_empty \<and>
   get (retained (storeRetained p_empty (LevelUpPersistance ttl0))) ''other''
     = get (retained (LevelUpPersistance ttl0)) ''other''"
  using storeRetained_always_puts [of p_empty "LevelUpPersistance ttl0" "''home/#''"]
  by (simp add: topic_matches_def p_empty_def)

text \<open>
  C1 as stated fails: after \<open>home/temp\<close> was retained with payload \<open>21\<close>, storing a packet
  with an empty payload on the same topic deletes nothing, and a lookup with \<open>home/#\<close>
  returns the packet with the empty payload.
\<close>

theorem storeRetained_empty_payload_counterexample:
  "payload p_empty = [] \<and>
   lookupRetained ''home/#'' (storeRetained p_empty (storeRetained p21 (LevelUpPersistance ttl0)))
     = [p_empty]"
  by (simp add: persist_defs p_empty_def p21_def ttl0_def)

section \<open>Offline packets\<close>

text \<open>
  C6 at a concrete input: with \<^verbatim>\<open>ttl.subscriptions\<close> 1000 and \<^verbatim>\<open>ttl.packets\<close> 2000,
  \<open>storePacket\<close> stores the packet under the client id, a colon and the timestamp, with a
  time to live of 1000, which is that of the subscriptions and not that of the packets.
\<close>

theorem storePacket_uses_subscriptions_ttl:
  "ttl_packets (options (LevelUpPersistance ttl1)) = 2000 \<and>
   ttl_subscriptions (options (LevelUpPersistance ttl1)) = 1000 \<and>
   (case storePacket (\<lambda>k. False) ''2013-06-01T10:00:00.000Z'' ''c1'' px (LevelUpPersistance ttl1) of
      Inl e \<Rightarrow> False
    | Inr st \<Rightarrow> offlinePackets st = [(''c1:2013-06-01T10:00:00.000Z'', (px, Some 1000))])"
  by (simp add: persist_defs ttl1_def)

lemma iter_outcome_cong:
  "subscriptions st' = subscriptions st \<Longrightarrow> iter_outcome refused st' now key = iter_outcome refused st now key"
  by (simp add: iter_outcome_def)

lemma outcomes_cong:
  "subscriptions st' = subscriptions st \<Longrightarrow> outcomes refused clock st' keys i = outcomes refused clock st keys i"
  by (induction keys arbitrary: i) (simp_all add: iter_outcome_cong [of st' st])

lemma each_sub_outcomes:
  "each_sub refused clock p keys i st =
     (first_error (outcomes refused clock st keys i),
      st\<lparr>offlinePackets :=
           fold (\<lambda>k. put k p (Some (ttl_subscriptions (options st))))
             (written (outcomes refused clock st keys i)) (offlinePackets st)\<rparr>)"
proof (induction keys arbitrary: i st)
  case Nil
  then show ?case by simp
next
  case (Cons key keys)
  show ?case
  proof (cases "get (subscriptions st) key")
    case None
    then show ?thesis
      by (simp add: Cons.IH iter_outcome_def)
  next
    case (Some r)
    obtain sub t where r: "r = (sub, t)" by (cases r)
    show ?thesis
    proof (cases "refused (format2 (r_client sub) (clock i))")
      case True
      then show ?thesis
        using Some r by (simp add: Cons.IH iter_outcome_def storePacket_def)
    next
      case False
      let ?st1 = "st\<lparr>offlinePackets := put (format2 (r_client sub) (clock i)) p
                     (Some (ttl_subscriptions (options st))) (offlinePackets st)\<rparr>"
      have o: "outcomes refused clock ?st1 keys (Suc i) = outcomes refused clock st keys (Suc i)"
        by (rule outcomes_cong) simp
      show ?thesis
        using Some r False by (simp add: Cons.IH iter_outcome_def storePacket_def o)
    qed
  qed
qed

lemma first_error_None: "first_error xs = None \<longleftrightarrow> (\<forall>e. Inl e \<notin> set xs)"
  by (induction xs rule: first_error.induct) auto

lemma set_written: "set (written xs) = {k. Inr k \<in> set xs}"
  by (induction xs rule: written.induct) auto

lemma storeOfflinePacket_outcomes:
  "storeOfflinePacket refused clock p st =
     (first_error (iterations refused clock p st),
      st\<lparr>offlinePackets :=
           fold (\<lambda>k. put k p (Some (ttl_subscriptions (options st))))
             (written (iterations refused clock p st)) (offlinePackets st)\<rparr>)"
  by (simp add: storeOfflinePacket_def iterations_def each_sub_outcomes)

text \<open>
  C8, as the code has it: the final callback of \<open>storeOfflinePacket\<close> receives the first
  error that an iterator reports, so an error for one matched subscriber is handed to the
  caller (nothing is logged or swallowed). The iterators of the other matched keys still
  run: after the call the offline sublevel holds the packet, with the time to live of
  the call, under every key that an iterator wrote, and is unchanged at every other key.
\<close>

theorem storeOfflinePacket_propagates_error:
  "fst (storeOfflinePacket refused clock p st) = first_error (iterations refused clock p st) \<and>
   (\<forall>e. Inl e \<in> set (iterations refused clock p st) \<longrightarrow>
          fst (storeOfflinePacket refused clock p st) \<noteq> None) \<and>
   (\<forall>k. get (offlinePackets (snd (storeOfflinePacket refused clock p st))) k =
          (if Inr k \<in> set (iterations refused clock p st)
           then Some (p, Some (ttl_subscriptions (options st)))
           else get (offlinePackets st) k))"
proof -
  have a: "fst (storeOfflinePacket refused clock p st) = first_error (iterations refused clock p st)"
    by (simp add: storeOfflinePacket_outcomes)
  have b: "\<forall>e. Inl e \<in> set (iterations refused clock p st) \<longrightarrow>
          fst (storeOfflinePacket refused clock p st) \<noteq> None"
    unfolding a by (auto simp: first_error_None)
  have c: "\<forall>k. get (offlinePackets (snd (storeOfflinePacket refused clock p st))) k =
          (if Inr k \<in> set (iterations refused clock p st)
           then Some (p, Some (ttl_subscriptions (options st)))
           else get (offlinePackets st) k)"
    by (simp add: storeOfflinePacket_outcomes get_fold_put set_written)
  from a b c show ?thesis by blast
qed

lemma iterations_st8:
  "iterations refuse_c1 (\<lambda>i. ''T'') px st8 = [Inl WriteError, Inr ''c2:T'']"
  by (simp add: iterations_def iter_outcome_def persist_defs st8_def sessA_def sessB_def
        refuse_c1_def px_def ttl0_def)

text \<open>
  The theorem with two matched subscribers, where the engine refuses the write for the
  first: the callback gets an error, the copy of the second is stored, none for the first.
\<close>

theorem storeOfflinePacket_propagates_error_witness:
  "Inl WriteError \<in> set (iterations refuse_c1 (\<lambda>i. ''T'') px st8) \<and>
   fst (storeOfflinePacket refuse_c1 (\<lambda>i. ''T'') px st8) \<noteq> None \<and>
   get (offlinePackets (snd (storeOfflinePacket refuse_c1 (\<lambda>i. ''T'') px st8))) ''c2:T''
     = Some (px, Some 3600000) \<and>
   get (offlinePackets (snd (storeOfflinePacket refuse_c1 (\<lambda>i. ''T'') px st8))) ''c1:T'' = None"
  using storeOfflinePacket_propagates_error [of refuse_c1 "\<lambda>i. ''T''" px st8]
  by (simp add: iterations_st8) (simp add: persist_defs st8_def sessA_def sessB_def ttl0_def)

text \<open>
  C8 as stated fails: with two matched subscribers and the write for \<open>c1\<close> refused, the
  copy for \<open>c2\<close> is stored, but the completion callback is called with the write error.
\<close>

theorem storeOfflinePacket_error_counterexample:
  "length (qlobber_match (subLobber st8) (topic px)) = 2 \<and>
   (case storeOfflinePacket refuse_c1 (\<lambda>i. ''T'') px st8 of
      (e, st) \<Rightarrow> e = Some WriteError \<and> map fst (offlinePackets st) = [''c2:T''])"
  by (simp add: persist_defs st8_def sessA_def sessB_def refuse_c1_def px_def ttl0_def)

lemma written_length:
  "length (written (outcomes (\<lambda>k. False) clock st keys i)) =
   length (filter (\<lambda>key. get (subscriptions st) key \<noteq> None) keys)"
  by (induction keys arbitrary: i) (auto simp: iter_outcome_def split: option.splits)

lemma two_subs_scenario:
  assumes "f1 \<noteq> f2" "q1 > 0" "q2 > 0" "topic_matches f1 (topic p)" "topic_matches f2 (topic p)"
    and "clock 0 \<noteq> clock 1"
  shows "storeOfflinePacket (\<lambda>k. False) clock p
           (storeSubscriptions \<lparr>s_id = cid, s_clean = False, s_subscriptions = [(f1, q1), (f2, q2)]\<rparr>
              (LevelUpPersistance g)) =
         (None,
          (storeSubscriptions \<lparr>s_id = cid, s_clean = False, s_subscriptions = [(f1, q1), (f2, q2)]\<rparr>
              (LevelUpPersistance g))
          \<lparr>offlinePackets :=
             [(format2 cid (clock 0), (p, Some (ttl_subscriptions (ttl_defaults g)))),
              (format2 cid (clock 1), (p, Some (ttl_subscriptions (ttl_defaults g))))]\<rparr>)"
  using assms
  by (simp add: storeOfflinePacket_def storeSubscriptions_def LevelUpPersistance_def
        qlobber_add_def qlobber_match_def put_def get_def storePacket_def
        format2_left format2_right Let_def)

text \<open>
  C10, as the code has it: \<open>storeOfflinePacket\<close> issues one put of the packet for every
  matched key whose subscription row exists (here with an engine that accepts every
  write), each under the client id of the row, a colon and the clock reading of that
  iterator. A client that stored two subscriptions with different filters, both matching
  the topic, gets two offline entries, and a later \<open>streamOfflinePackets\<close> of that client,
  not clean, hands out the packet twice, provided the two clock readings differ.
\<close>

theorem one_put_per_matching_row:
  "length (written (iterations (\<lambda>k. False) clock p st)) =
     length (filter (\<lambda>key. get (subscriptions st) key \<noteq> None)
               (qlobber_match (subLobber st) (topic p))) \<and>
   offlinePackets (snd (storeOfflinePacket (\<lambda>k. False) clock p st)) =
     fold (\<lambda>k. put k p (Some (ttl_subscriptions (options st))))
       (written (iterations (\<lambda>k. False) clock p st)) (offlinePackets st) \<and>
   (f1 \<noteq> f2 \<and> q1 > 0 \<and> q2 > 0 \<and> topic_matches f1 (topic p) \<and> topic_matches f2 (topic p) \<and>
    clock 0 \<noteq> clock 1 \<longrightarrow>
      (let c = \<lparr>s_id = cid, s_clean = False, s_subscriptions = [(f1, q1), (f2, q2)]\<rparr>;
           r = storeOfflinePacket (\<lambda>k. False) clock p (storeSubscriptions c (LevelUpPersistance g))
       in fst r = None \<and>
          map fst (offlinePackets (snd r)) = [format2 cid (clock 0), format2 cid (clock 1)] \<and>
          fst (streamOfflinePackets c (snd r)) = [p, p]))"
proof -
  have a: "length (written (iterations (\<lambda>k. False) clock p st)) =
     length (filter (\<lambda>key. get (subscriptions st) key \<noteq> None)
               (qlobber_match (subLobber st) (topic p)))"
    by (simp add: iterations_def written_length)
  have b: "offlinePackets (snd (storeOfflinePacket (\<lambda>k. False) clock p st)) =
     fold (\<lambda>k. put k p (Some (ttl_subscriptions (options st))))
       (written (iterations (\<lambda>k. False) clock p st)) (offlinePackets st)"
    by (simp add: storeOfflinePacket_outcomes)
  have c: "(let c = \<lparr>s_id = cid, s_clean = False, s_subscriptions = [(f1, q1), (f2, q2)]\<rparr>;
           r = storeOfflinePacket (\<lambda>k. False) clock p (storeSubscriptions c (LevelUpPersistance g))
       in fst r = None \<and>
          map fst (offlinePackets (snd r)) = [format2 cid (clock 0), format2 cid (clock 1)] \<and>
          fst (streamOfflinePackets c (snd r)) = [p, p])"
    if "f1 \<noteq> f2" "q1 > 0" "q2 > 0" "topic_matches f1 (topic p)" "topic_matches f2 (topic p)"
       "clock 0 \<noteq> clock 1"
    using two_subs_scenario [OF that, of cid g]
    by (simp add: Let_def streamOfflinePackets_def in_range_format2)
  from a b c show ?thesis by blast
qed

text \<open>The theorem for client \<open>c1\<close> with the filters \<open>a/+/c\<close> and \<open>a/#\<close>, one millisecond apart.\<close>

theorem one_put_per_matching_row_witness:
  "''a/+/c'' \<noteq> ''a/#'' \<and> (1::nat) > 0 \<and> topic_matches ''a/+/c'' (topic px) \<and>
   topic_matches ''a/#'' (topic px) \<and> clock01 0 \<noteq> clock01 1 \<and>
   (let r = storeOfflinePacket (\<lambda>k. False) clock01 px (storeSubscriptions sess2 (LevelUpPersistance ttl0))
    in fst r = None \<and>
       map fst (offlinePackets (snd r)) =
         [''c1:2013-06-01T10:00:00.000Z'', ''c1:2013-06-01T10:00:00.001Z''] \<and>
       fst (streamOfflinePackets sess2 (snd r)) = [px, px])"
  using one_put_per_matching_row [of clock01 px "LevelUpPersistance ttl0" "''a/+/c''" "''a/#''" 1 1 "''c1''" ttl0]
  by (simp add: sess2_def topic_matches_def px_def clock01_def format2_def Let_def)

text \<open>
  C10 as stated fails when both iterators read the same millisecond: the two matched rows
  of client \<open>c1\<close> give two puts under one key, one offline entry remains, and the client
  is handed the packet once.
\<close>

theorem same_millisecond_counterexample:
  "length (qlobber_match (subLobber (storeSubscriptions sess2 (LevelUpPersistance ttl0))) (topic px)) = 2 \<and>
   (case storeOfflinePacket (\<lambda>k. False) (\<lambda>i. ''2013-06-01T10:00:00.000Z'') px
           (storeSubscriptions sess2 (LevelUpPersistance ttl0)) of
      (e, st) \<Rightarrow> e = None \<and> length (offlinePackets st) = 1 \<and> fst (streamOfflinePackets sess2 st) = [px])"
  by (simp add: persist_defs sess2_def px_def ttl0_def)

section \<open>Looking up the subscriptions of a client\<close>



section \<open>Message ids\<close>

lemmas server_defs = Server_def serve_def initial_nextId_def emit_error_def actualSend_def
  forward_def clearTimeout_def cleanup_def closeConn_def stream_end_def unsubscribeMapTo_def
  unsubAndClose_def setUpTimer_def fire_def on_connect_def on_puback_def on_disconnect_def
  default_authenticate_def remove_key_def fire_inflight_def Let_def

lemma initial_nextId_bound: "0 \<le> r \<Longrightarrow> r < 1 \<Longrightarrow> initial_nextId r < 65535"
proof -
  assume r: "0 \<le> r" "r < 1"
  obtain z where z: "z = \<lfloor>65535 * r\<rfloor>" by simp
  from r have "z < 65535" unfolding z by (simp add: floor_less_iff)
  then have "nat z < 65535" by linarith
  then show ?thesis by (simp add: initial_nextId_def z)
qed

lemma message_ids_snoc: "message_ids (xs @ [Publish p]) = message_ids xs @ [p_messageId p]"
  by (induction xs rule: message_ids.induct) simp_all

lemma forward_step:
  "heap s c = Some cl \<Longrightarrow>
     \<exists>cl'. heap (forward c tp pl oq st iq s) c = Some cl' \<and>
           c_nextId cl' = c_nextId cl + 1 \<and>
           message_ids (c_out cl') = message_ids (c_out cl) @ [c_nextId cl]"
  by (simp add: forward_def actualSend_def Let_def message_ids_snoc)

lemma forward_steps:
  "heap s c = Some cl \<Longrightarrow>
     \<exists>cl'. heap (((forward c tp pl oq st iq) ^^ k) s) c = Some cl' \<and>
           c_nextId cl' = c_nextId cl + k \<and>
           message_ids (c_out cl') = message_ids (c_out cl) @ map (\<lambda>i. c_nextId cl + i) [0..<k]"
proof (induction k)
  case 0
  then show ?case by simp
next
  case (Suc k)
  then obtain cl1 where
    h: "heap (((forward c tp pl oq st iq) ^^ k) s) c = Some cl1" and
    n: "c_nextId cl1 = c_nextId cl + k" and
    m: "message_ids (c_out cl1) = message_ids (c_out cl) @ map (\<lambda>i. c_nextId cl + i) [0..<k]"
    by blast
  from forward_step [OF h, of tp pl oq st iq] n m show ?case
    by auto
qed

lemma near_top_eval:
  "near_top = (Server None)\<lparr>heap := [1 \<mapsto>
        \<lparr> c_id = None, c_keepalive = 0, c_will = None, c_timer = None,
          c_subscriptions = [], c_nextId = 65534, c_inflight = [],
          c_closed = False, c_ended = False, c_end_listeners = 0,
          c_listening = True, c_onclose = True, c_out = [], c_errors = [] \<rparr>]\<rparr>"
  by (simp add: near_top_def serve_def initial_nextId_def Server_def)

text \<open>
  C7, as the code has it: \<open>serve\<close> starts \<open>nextId\<close> at \<open>initial_nextId r\<close>, which is at most
  65535 for every \<open>r\<close> that \<^verbatim>\<open>Math.random()\<close> can return; every \<open>forward\<close> publishes with the
  current \<open>nextId\<close> as message id and then adds one to it. The counter is never reduced:
  after \<open>k\<close> deliveries it is the value it had plus \<open>k\<close>, and the deliveries carried that
  value, that value plus one, and so on.
\<close>

theorem forward_takes_nextId:
  "(0 \<le> r \<and> r < 1 \<longrightarrow>
      heap (serve r c s0) c \<noteq> None \<and>
      (\<forall>cl. heap (serve r c s0) c = Some cl \<longrightarrow> c_nextId cl = initial_nextId r \<and> c_nextId cl \<le> 65535)) \<and>
   (heap s c = Some cl \<longrightarrow>
      (case heap (((forward c tp pl oq st iq) ^^ k) s) c of
         None \<Rightarrow> False
       | Some cl' \<Rightarrow>
           c_nextId cl' = c_nextId cl + k \<and>
           message_ids (c_out cl') =
             message_ids (c_out cl) @ map (\<lambda>i. c_nextId cl + i) [0..<k]))"
proof -
  have a: "0 \<le> r \<and> r < 1 \<longrightarrow>
      heap (serve r c s0) c \<noteq> None \<and>
      (\<forall>cl. heap (serve r c s0) c = Some cl \<longrightarrow> c_nextId cl = initial_nextId r \<and> c_nextId cl \<le> 65535)"
    using initial_nextId_bound [of r] by (auto simp: serve_def intro: less_imp_le)
  have b: "heap s c = Some cl \<longrightarrow>
      (case heap (((forward c tp pl oq st iq) ^^ k) s) c of
         None \<Rightarrow> False
       | Some cl' \<Rightarrow>
           c_nextId cl' = c_nextId cl + k \<and>
           message_ids (c_out cl') =
             message_ids (c_out cl) @ map (\<lambda>i. c_nextId cl + i) [0..<k])"
  proof
    assume "heap s c = Some cl"
    then have "\<exists>cl'. heap (((forward c tp pl oq st iq) ^^ k) s) c = Some cl' \<and>
           c_nextId cl' = c_nextId cl + k \<and>
           message_ids (c_out cl') = message_ids (c_out cl) @ map (\<lambda>i. c_nextId cl + i) [0..<k]"
      by (rule forward_steps)
    then show "case heap (((forward c tp pl oq st iq) ^^ k) s) c of
         None \<Rightarrow> False
       | Some cl' \<Rightarrow>
           c_nextId cl' = c_nextId cl + k \<and>
           message_ids (c_out cl') =
             message_ids (c_out cl) @ map (\<lambda>i. c_nextId cl + i) [0..<k]"
      by auto
  qed
  from a b show ?thesis by blast
qed

text \<open>The theorem for a client whose counter starts at 65534, and three deliveries.\<close>

theorem forward_takes_nextId_witness:
  "(0::real) \<le> 99999 / 100000 \<and> (99999 / 100000 :: real) < 1 \<and>
   (case heap near_top 1 of
      None \<Rightarrow> False
    | Some cl \<Rightarrow>
        c_nextId cl = 65534 \<and> c_out cl = [] \<and>
        (case heap (((forward 1 ''t'' ''x'' (Some 0) ''t'' 0) ^^ 3) near_top) 1 of
           None \<Rightarrow> False
         | Some cl' \<Rightarrow> c_nextId cl' = 65537 \<and> message_ids (c_out cl') = [65534, 65535, 65536]))"
proof -
  let ?cl = "\<lparr> c_id = None, c_keepalive = 0, c_will = None, c_timer = None,
          c_subscriptions = [], c_nextId = 65534, c_inflight = [],
          c_closed = False, c_ended = False, c_end_listeners = 0,
          c_listening = True, c_onclose = True, c_out = [], c_errors = [] \<rparr>"
  have h: "heap near_top 1 = Some ?cl"
    by (simp add: near_top_eval)
  have u: "[0..<3] = [0, 1, 2]"
    by (simp add: upt_rec)
  from forward_takes_nextId [where r = "99999 / 100000" and c = 1 and ?s0.0 = "Server None"
          and s = near_top and cl = ?cl and tp = "''t''" and pl = "''x''"
          and oq = "Some 0" and st = "''t''" and iq = 0 and k = 3] h
  have "case heap (((forward 1 ''t'' ''x'' (Some 0) ''t'' 0) ^^ 3) near_top) 1 of
           None \<Rightarrow> False
         | Some cl' \<Rightarrow> c_nextId cl' = 65537 \<and> message_ids (c_out cl') = [65534, 65535, 65536]"
    by (simp add: u split: option.splits)
  with h show ?thesis
    by simp
qed

text \<open>
  C7 as stated fails: a client whose counter starts at 65534 is sent, at its third
  delivery, a packet with message id 65536, which does not fit in sixteen bits.
\<close>

theorem messageId_exceeds_u16_counterexample:
  "(case heap (forward 1 ''t'' ''x'' (Some 0) ''t'' 0
                (forward 1 ''t'' ''x'' (Some 0) ''t'' 0
                  (forward 1 ''t'' ''x'' (Some 0) ''t'' 0 near_top))) 1 of
      None \<Rightarrow> False
    | Some cl \<Rightarrow> message_ids (c_out cl) = [65534, 65535, 65536] \<and> c_nextId cl = 65537)"
  by (simp add: near_top_def server_defs)

section \<open>The registry at CONNECT\<close>

text \<open>
  C3, as the code has it: a CONNECT that is authenticated stores the connecting client in
  the registry under the id of the packet, replacing whatever was registered there;
  every other id keeps its entry and every other client object, the one displaced
  included, is left exactly as it was. So the registry has one client per id, the latest,
  and a displaced client stays open, no longer registered.
\<close>

theorem connect_overwrites_registry:
  "heap s c = Some cl \<and> auth c (username cp) (password cp) = Inr True \<longrightarrow>
     clients (on_connect auth c cp s) (clientId cp) = Some c \<and>
     (\<forall>i. i \<noteq> clientId cp \<longrightarrow> clients (on_connect auth c cp s) i = clients s i) \<and>
     (\<forall>c'. c' \<noteq> c \<longrightarrow> heap (on_connect auth c cp s) c' = heap s c')"
  by (simp add: on_connect_def setUpTimer_def clearTimeout_def Let_def split: option.splits)

text \<open>The theorem for two clients that connect with the id \<open>a\<close>, one after the other.\<close>

theorem connect_overwrites_registry_witness:
  "heap (on_connect default_authenticate 1 cpA two_served) 2 \<noteq> None \<and>
   default_authenticate 2 (username cpA) (password cpA) = Inr True \<and>
   clients (on_connect default_authenticate 1 cpA two_served) ''a'' = Some 1 \<and>
   clients (on_connect default_authenticate 2 cpA (on_connect default_authenticate 1 cpA two_served)) ''a''
     = Some 2 \<and>
   (1::nat) \<noteq> 2 \<and>
   heap (on_connect default_authenticate 2 cpA (on_connect default_authenticate 1 cpA two_served)) 1
     = heap (on_connect default_authenticate 1 cpA two_served) 1"
  using connect_overwrites_registry
          [of "on_connect default_authenticate 1 cpA two_served" 2
              "the (heap (on_connect default_authenticate 1 cpA two_served) 2)"
              default_authenticate cpA]
  by (simp add: two_served_def cpA_def server_defs)

text \<open>
  C3 as stated fails: after client 2 connects with the id under which client 1 is
  registered, the registry names client 2, and client 1 has not been closed: its stream
  is not ended, its listeners and its keepalive timer are in place.
\<close>

theorem second_connect_counterexample:
  "clients (on_connect default_authenticate 1 cpA two_served) ''a'' = Some 1 \<and>
   clients (on_connect default_authenticate 2 cpA (on_connect default_authenticate 1 cpA two_served)) ''a''
     = Some 2 \<and>
   (case heap (on_connect default_authenticate 2 cpA
                 (on_connect default_authenticate 1 cpA two_served)) 1 of
      None \<Rightarrow> False
    | Some cl \<Rightarrow> c_id cl = Some ''a'' \<and> \<not> c_ended cl \<and> \<not> c_closed cl \<and> c_listening cl \<and>
                 c_end_listeners cl = 0 \<and> c_timer cl \<noteq> None)"
  by (simp add: two_served_def cpA_def server_defs)

section \<open>Resending a packet of qos 1\<close>

lemma armed_step:
  assumes "armed c p k cl0 s" "k < 9" "p_qos p = 1"
  shows "armed c p (Suc k) cl0 (fire_inflight c (p_messageId p) s)"
  using assms
  by (auto simp: armed_def fire_inflight_def fire_def actualSend_def map_of_assign Let_def
        replicate_append_same split: option.splits)

lemma armed_last:
  assumes "armed c p 9 cl0 s"
  shows "exhausted c p cl0 (fire_inflight c (p_messageId p) s)"
  using assms
  by (auto simp: armed_def exhausted_def fire_inflight_def fire_def actualSend_def emit_error_def
        split: option.splits)

lemma forward_arms:
  assumes "heap s c = Some cl" "c_listening cl"
    and "min (case oq of None \<Rightarrow> 0 | Some q \<Rightarrow> q)
             (case map_of (c_subscriptions cl) st of None \<Rightarrow> iq | Some sb \<Rightarrow> sub_qos sb) = 1"
  shows "armed c \<lparr>p_topic = tp, p_payload = pl, p_qos = 1, p_messageId = c_nextId cl\<rparr> 0 cl
           (forward c tp pl oq st iq s)"
  using assms
  by (simp add: armed_def forward_def actualSend_def map_of_assign Let_def)

lemma armed_run:
  "armed c p 0 cl0 s \<Longrightarrow> p_qos p = 1 \<Longrightarrow> k \<le> 9 \<Longrightarrow> armed c p k cl0 (resend_run k c (p_messageId p) s)"
proof -
  have g: "armed c p j cl0 s' \<Longrightarrow> p_qos p = 1 \<Longrightarrow> j + n \<le> 9 \<Longrightarrow>
           armed c p (j + n) cl0 (resend_run n c (p_messageId p) s')" for j n s'
  proof (induction n arbitrary: j s')
    case 0
    then show ?case by simp
  next
    case (Suc n)
    from Suc.prems have "armed c p (Suc j) cl0 (fire_inflight c (p_messageId p) s')"
      by (intro armed_step) auto
    from Suc.IH [OF this] Suc.prems show ?case by simp
  qed
  assume "armed c p 0 cl0 s" "p_qos p = 1" "k \<le> 9"
  with g [of 0 s k] show ?thesis by simp
qed

lemma run_exhausts:
  assumes "armed c p 0 cl0 s" "p_qos p = 1"
  shows "exhausted c p cl0 (resend_run 10 c (p_messageId p) s)"
proof -
  have "armed c p 9 cl0 (resend_run 9 c (p_messageId p) s)"
    using assms by (intro armed_run) auto
  then have "exhausted c p cl0 (fire_inflight c (p_messageId p) (resend_run 9 c (p_messageId p) s))"
    by (rule armed_last)
  moreover have "resend_run n c m (fire_inflight c m s') = fire_inflight c m (resend_run n c m s')"
    for n m s'
    by (induction n arbitrary: s') simp_all
  moreover have "(10::nat) = Suc 9"
    by simp
  ultimately show ?thesis
    by (simp only: resend_run.simps)
qed

lemma exhausted_fire_noop:
  "exhausted c p cl0 s \<Longrightarrow> fire_inflight c (p_messageId p) s = s"
  by (auto simp: exhausted_def fire_inflight_def fire_def split: option.splits)

lemma fold_clearTimeout:
  "timers (fold (\<lambda>e. clearTimeout (Some (snd e))) xs s) h =
     (if h \<in> snd ` set xs then None else timers s h)"
  "heap (fold (\<lambda>e. clearTimeout (Some (snd e))) xs s) = heap s"
  by (induction xs arbitrary: s) (auto simp: clearTimeout_def)

lemma one_served_eval:
  "one_served = (Server None)\<lparr>heap := [1 \<mapsto>
        \<lparr> c_id = None, c_keepalive = 0, c_will = None, c_timer = None,
          c_subscriptions = [], c_nextId = 32767, c_inflight = [],
          c_closed = False, c_ended = False, c_end_listeners = 0,
          c_listening = True, c_onclose = True, c_out = [], c_errors = [] \<rparr>]\<rparr>"
  by (simp add: one_served_def serve_def initial_nextId_def Server_def)

lemma sent_qos1_eval:
  "sent_qos1 = (Server None)\<lparr>heap := [1 \<mapsto>
        \<lparr> c_id = None, c_keepalive = 0, c_will = None, c_timer = None,
          c_subscriptions = [], c_nextId = 32768, c_inflight = [(32767, 0)],
          c_closed = False, c_ended = False, c_end_listeners = 0,
          c_listening = True, c_onclose = True, c_out = [Publish pub1], c_errors = [] \<rparr>],
       timers := [0 \<mapsto> Resend 1000 1 pub1 0], next_ref := 1\<rparr>"
  by (simp add: sent_qos1_def one_served_eval pub1_def forward_def actualSend_def Server_def Let_def)

text \<open>
  C2, as the code has it: a PUBACK for a message id that is in flight cancels the timer
  and removes the entry; the cleanup of a closed connection cancels every timer in
  flight and empties \<open>inflight\<close>. With no PUBACK, a packet forwarded with qos 1 is
  transmitted once per attempt \<open>0, \<dots>, 9\<close>, and after attempt \<open>k\<close> the timer in flight has
  the delay \<open>baseRetryTimeout * 2^k\<close>; when the timer of attempt 9 expires nothing is
  transmitted or scheduled any more, the error is emitted, and \<open>inflight\<close> still holds
  the handle of the expired timer: running out of attempts removes no entry.
\<close>

theorem inflight_cleared_by_puback_or_cleanup:
  "(heap s c = Some cl \<and> map_of (c_inflight cl) mid = Some h \<longrightarrow>
      timers (on_puback c mid s) h = None \<and>
      (case heap (on_puback c mid s) c of
         None \<Rightarrow> False
       | Some cl' \<Rightarrow> map_of (c_inflight cl') mid = None)) \<and>
   (heap s c = Some cl \<longrightarrow>
      (\<forall>e \<in> set (c_inflight cl). timers (cleanup c s) (snd e) = None) \<and>
      (case heap (cleanup c s) c of None \<Rightarrow> False | Some cl' \<Rightarrow> c_inflight cl' = [])) \<and>
   (heap s c = Some cl \<and> c_listening cl \<and>
    min (case oq of None \<Rightarrow> 0 | Some q \<Rightarrow> q)
        (case map_of (c_subscriptions cl) st of None \<Rightarrow> iq | Some sb \<Rightarrow> sub_qos sb) = 1 \<longrightarrow>
      (\<forall>k \<le> 9.
         armed c \<lparr>p_topic = tp, p_payload = pl, p_qos = 1, p_messageId = c_nextId cl\<rparr> k cl
           (resend_run k c (c_nextId cl) (forward c tp pl oq st iq s))) \<and>
      exhausted c \<lparr>p_topic = tp, p_payload = pl, p_qos = 1, p_messageId = c_nextId cl\<rparr> cl
        (resend_run 10 c (c_nextId cl) (forward c tp pl oq st iq s)))"
proof (intro conjI impI)
  assume "heap s c = Some cl \<and> map_of (c_inflight cl) mid = Some h"
  then show "timers (on_puback c mid s) h = None"
    and "case heap (on_puback c mid s) c of
         None \<Rightarrow> False
       | Some cl' \<Rightarrow> map_of (c_inflight cl') mid = None"
    by (simp_all add: on_puback_def clearTimeout_def map_of_remove_key)
next
  assume h: "heap s c = Some cl"
  then show "\<forall>e \<in> set (c_inflight cl). timers (cleanup c s) (snd e) = None"
    by (simp add: cleanup_def Let_def fold_clearTimeout)
  from h show "case heap (cleanup c s) c of None \<Rightarrow> False | Some cl' \<Rightarrow> c_inflight cl' = []"
    by (simp add: cleanup_def Let_def fold_clearTimeout)
next
  let ?p = "\<lparr>p_topic = tp, p_payload = pl, p_qos = 1, p_messageId = c_nextId cl\<rparr>"
  assume h: "heap s c = Some cl \<and> c_listening cl \<and>
    min (case oq of None \<Rightarrow> 0 | Some q \<Rightarrow> q)
        (case map_of (c_subscriptions cl) st of None \<Rightarrow> iq | Some sb \<Rightarrow> sub_qos sb) = 1"
  then have a: "armed c ?p 0 cl (forward c tp pl oq st iq s)"
    by (intro forward_arms) simp_all
  show "\<forall>k \<le> 9. armed c ?p k cl (resend_run k c (c_nextId cl) (forward c tp pl oq st iq s))"
    using armed_run [OF a] by simp
  show "exhausted c ?p cl (resend_run 10 c (c_nextId cl) (forward c tp pl oq st iq s))"
    using run_exhausts [OF a] by simp
qed

text \<open>
  The theorem for a packet with message id 32767 sent to client 1: acknowledged, cleaned
  up, and resent without acknowledgement.
\<close>

theorem inflight_cleared_by_puback_or_cleanup_witness:
  "(case heap sent_qos1 1 of
      None \<Rightarrow> False
    | Some cl \<Rightarrow> map_of (c_inflight cl) 32767 = Some 0 \<and> (32767, 0) \<in> set (c_inflight cl)) \<and>
   timers sent_qos1 0 = Some (Resend 1000 1 pub1 0) \<and>
   timers (on_puback 1 32767 sent_qos1) 0 = None \<and>
   (case heap (on_puback 1 32767 sent_qos1) 1 of
      None \<Rightarrow> False
    | Some cl' \<Rightarrow> map_of (c_inflight cl') 32767 = None) \<and>
   timers (cleanup 1 sent_qos1) 0 = None \<and>
   (case heap (cleanup 1 sent_qos1) 1 of None \<Rightarrow> False | Some cl' \<Rightarrow> c_inflight cl' = []) \<and>
   (case heap one_served 1 of
      None \<Rightarrow> False
    | Some cl \<Rightarrow>
        c_listening cl \<and> c_nextId cl = 32767 \<and>
        min (case Some 1 of None \<Rightarrow> 0 | Some q \<Rightarrow> q)
            (case map_of (c_subscriptions cl) ''t'' of None \<Rightarrow> (1::nat) | Some sb \<Rightarrow> sub_qos sb) = 1 \<and>
        (3::nat) \<le> 9 \<and>
        armed 1 pub1 3 cl (resend_run 3 1 32767 sent_qos1) \<and>
        exhausted 1 pub1 cl (resend_run 10 1 32767 sent_qos1))"
  using inflight_cleared_by_puback_or_cleanup
          [where s = sent_qos1 and c = 1 and cl = "the (heap sent_qos1 1)" and mid = 32767 and h = 0
             and oq = None and st = "''t''" and iq = 0 and tp = "''t''" and pl = "''x''"]
        inflight_cleared_by_puback_or_cleanup
          [where s = one_served and c = 1 and cl = "the (heap one_served 1)" and mid = 0 and h = 0
             and oq = "Some 1" and st = "''t''" and iq = 1 and tp = "''t''" and pl = "''x''"]
  by (simp add: sent_qos1_eval) (simp add: one_served_eval sent_qos1_def pub1_def)

text \<open>
  C2 as stated fails: the packet was transmitted once and never acknowledged, the client
  disconnects and its stream ends, and the entry in \<open>inflight\<close> is gone, with neither a
  PUBACK nor ten attempts.
\<close>

theorem inflight_cleared_on_close_counterexample:
  "(case heap sent_qos1 1 of
      None \<Rightarrow> False
    | Some cl \<Rightarrow> c_inflight cl = [(32767, 0)] \<and> c_out cl = [Publish pub1]) \<and>
   (case heap (stream_end 1 (on_disconnect 1 sent_qos1)) 1 of
      None \<Rightarrow> False
    | Some cl \<Rightarrow> c_inflight cl = [] \<and> c_out cl = [Publish pub1] \<and> c_errors cl = [])"
  by (simp add: sent_qos1_eval server_defs)

text \<open>
  C5, as the code has it: \<open>actualSend\<close> at attempt 10 transmits nothing and schedules
  nothing; it emits the error on the client, whose listener ends the stream of the
  client. So a packet of qos 1 that is never acknowledged leaves, after its tenth
  timer, a client with the error emitted and its stream ended, and no timer pending for
  the packet: a further expiry changes nothing.
\<close>

theorem exhaustion_ends_stream:
  "(heap s c = Some cl \<and> c_listening cl \<longrightarrow>
      actualSend c p 10 s =
        s\<lparr>heap := (heap s)(c \<mapsto>
             cl\<lparr>c_errors := c_errors cl @ [''client not responding to acks''],
                c_ended := True\<rparr>)\<rparr>) \<and>
   (heap s c = Some cl \<and> c_listening cl \<and>
    min (case oq of None \<Rightarrow> 0 | Some q \<Rightarrow> q)
        (case map_of (c_subscriptions cl) st of None \<Rightarrow> iq | Some sb \<Rightarrow> sub_qos sb) = 1 \<longrightarrow>
      exhausted c \<lparr>p_topic = tp, p_payload = pl, p_qos = 1, p_messageId = c_nextId cl\<rparr> cl
        (resend_run 10 c (c_nextId cl) (forward c tp pl oq st iq s)) \<and>
      fire_inflight c (c_nextId cl) (resend_run 10 c (c_nextId cl) (forward c tp pl oq st iq s))
        = resend_run 10 c (c_nextId cl) (forward c tp pl oq st iq s))"
proof (intro conjI impI)
  assume "heap s c = Some cl \<and> c_listening cl"
  then show "actualSend c p 10 s =
        s\<lparr>heap := (heap s)(c \<mapsto>
             cl\<lparr>c_errors := c_errors cl @ [''client not responding to acks''],
                c_ended := True\<rparr>)\<rparr>"
    by (simp add: actualSend_def emit_error_def)
next
  let ?p = "\<lparr>p_topic = tp, p_payload = pl, p_qos = 1, p_messageId = c_nextId cl\<rparr>"
  assume h: "heap s c = Some cl \<and> c_listening cl \<and>
    min (case oq of None \<Rightarrow> 0 | Some q \<Rightarrow> q)
        (case map_of (c_subscriptions cl) st of None \<Rightarrow> iq | Some sb \<Rightarrow> sub_qos sb) = 1"
  then have "armed c ?p 0 cl (forward c tp pl oq st iq s)"
    by (intro forward_arms) simp_all
  then have e: "exhausted c ?p cl (resend_run 10 c (p_messageId ?p) (forward c tp pl oq st iq s))"
    by (intro run_exhausts) simp_all
  from e show "exhausted c ?p cl (resend_run 10 c (c_nextId cl) (forward c tp pl oq st iq s))"
    by simp
  from exhausted_fire_noop [OF e]
  show "fire_inflight c (c_nextId cl) (resend_run 10 c (c_nextId cl) (forward c tp pl oq st iq s))
        = resend_run 10 c (c_nextId cl) (forward c tp pl oq st iq s)"
    by simp
qed

text \<open>The theorem for client 1 and a packet with message id 32767.\<close>

theorem exhaustion_ends_stream_witness:
  "(case heap one_served 1 of
      None \<Rightarrow> False
    | Some cl \<Rightarrow>
        c_listening cl \<and> \<not> c_ended cl \<and> c_nextId cl = 32767 \<and>
        min (case Some 1 of None \<Rightarrow> 0 | Some q \<Rightarrow> q)
            (case map_of (c_subscriptions cl) ''t'' of None \<Rightarrow> (1::nat) | Some sb \<Rightarrow> sub_qos sb) = 1 \<and>
        actualSend 1 pub1 10 one_served =
          one_served\<lparr>heap := (heap one_served)(1 \<mapsto>
             cl\<lparr>c_errors := [''client not responding to acks''], c_ended := True\<rparr>)\<rparr>) \<and>
   exhausted 1 pub1 (the (heap one_served 1)) (resend_run 10 1 32767 sent_qos1)"
  using exhaustion_ends_stream [where s = one_served and c = 1 and cl = "the (heap one_served 1)"
          and p = pub1 and oq = "Some 1" and st = "''t''" and iq = 1 and tp = "''t''" and pl = "''x''"]
  by (simp add: one_served_eval sent_qos1_def pub1_def)

text \<open>
  C5 as stated fails: the stream of client 1 is open after the first transmission and
  ended after the tenth timer has expired.
\<close>

theorem exhaustion_closes_counterexample:
  "(case heap sent_qos1 1 of None \<Rightarrow> False | Some cl \<Rightarrow> \<not> c_ended cl \<and> c_errors cl = []) \<and>
   (case heap (resend_run 10 1 32767 sent_qos1) 1 of
      None \<Rightarrow> False
    | Some cl \<Rightarrow> c_ended cl \<and> c_errors cl = [''client not responding to acks''])"
proof -
  let ?cl = "\<lparr> c_id = None, c_keepalive = 0, c_will = None, c_timer = None,
          c_subscriptions = [], c_nextId = 32767, c_inflight = [],
          c_closed = False, c_ended = False, c_end_listeners = 0,
          c_listening = True, c_onclose = True, c_out = [], c_errors = [] \<rparr>"
  have h: "heap one_served 1 = Some ?cl"
    by (simp add: one_served_eval)
  have "armed 1 \<lparr>p_topic = ''t'', p_payload = ''x'', p_qos = 1, p_messageId = c_nextId ?cl\<rparr> 0 ?cl
          (forward 1 ''t'' ''x'' (Some 1) ''t'' 1 one_served)"
    by (rule forward_arms [OF h]) simp_all
  then have a: "armed 1 pub1 0 ?cl sent_qos1"
    by (simp add: pub1_def sent_qos1_def)
  then have "exhausted 1 pub1 ?cl (resend_run 10 1 (p_messageId pub1) sent_qos1)"
    by (rule run_exhausts) (simp add: pub1_def)
  then have e: "exhausted 1 pub1 ?cl (resend_run 10 1 32767 sent_qos1)"
    by (simp add: pub1_def)
  from a have 1: "case heap sent_qos1 1 of None \<Rightarrow> False | Some cl \<Rightarrow> \<not> c_ended cl \<and> c_errors cl = []"
    by (auto simp: armed_def split: option.splits)
  from e have 2: "case heap (resend_run 10 1 32767 sent_qos1) 1 of
      None \<Rightarrow> False
    | Some cl \<Rightarrow> c_ended cl \<and> c_errors cl = [''client not responding to acks'']"
    by (auto simp: exhausted_def split: option.splits)
  from 1 2 show ?thesis by blast
qed

section \<open>Subscribing again\<close>






lemma length_filter_filter: "length (filter Q (filter P xs)) \<le> length (filter Q xs)"
  by (induction xs) auto



















end
